theory Spec2Isabelle
  imports Complex_Main
begin

section \<open>Mock detector data generator: \<open>generate_mock_data.py\<close>\<close>

text \<open>
  A shallow embedding of \<open>src/generate_mock_data.py\<close>. Python integers are modelled as
  \<open>int\<close> and every exception the script can raise as a value \<open>Inl e\<close> of a sum type.
  The value of a Python float is modelled as a \<open>real\<close>: the samples are computed without
  rounding, and there is no NaN and no infinity. Where double precision decides what the
  program does, the model follows it: an integer too large for a float raises
  \<open>OverflowError\<close>, and the number of points of the time axis is taken from the
  double-precision quotients, which are parameters of the model.
\<close>

subsection \<open>Errors\<close>

text \<open>
  The exceptions of the script. \<open>OSError\<close> is Python's \<open>IOError\<close> (a file that cannot be
  opened); \<open>JSONDecodeError\<close> is what the NDJSON reader raises on text that is not JSON;
  \<open>MemoryError\<close> is one of the errors a library can raise on an array too large.
\<close>

datatype error =
    ZeroDivisionError
  | OverflowError
  | TypeError
  | ValueError
  | AttributeError
  | JSONDecodeError
  | OSError
  | MemoryError

subsection \<open>The random source\<close>

text \<open>
  \<open>np.random.randn\<close> reads a process-wide generator. The generator is modelled by the
  sequence of standard-normal draws it is going to produce; \<open>randn n\<close> hands out the first
  \<open>n\<close> of them and returns the sequence that remains.
\<close>

type_synonym rng = "nat \<Rightarrow> real"

definition randn :: "nat \<Rightarrow> rng \<Rightarrow> real list \<times> rng" where
  "randn n g = (map g [0..<n], \<lambda>i. g (i + n))"

subsection \<open>Python values\<close>

text \<open>
  The values the script handles: what \<open>ast.literal_eval\<close> returns for the literals the
  key-value files hold and what the JSON reader returns for a signature line. (Sets, bytes
  and complex numbers, which \<open>ast.literal_eval\<close> also accepts, are left out.) A string is a
  list of characters with code points below 256. A dict is a list of key-value pairs with
  distinct keys.
\<close>

datatype pyval =
    PNone
  | PBool bool
  | PInt int
  | PFloat real
  | PStr string
  | PList "pyval list"
  | PTuple "pyval list"
  | PDict "(pyval \<times> pyval) list"

text \<open>Truth value of an object, as \<open>or\<close> tests it.\<close>

fun truthy :: "pyval \<Rightarrow> bool" where
  "truthy PNone = False"
| "truthy (PBool b) = b"
| "truthy (PInt i) = (i \<noteq> 0)"
| "truthy (PFloat x) = (x \<noteq> 0)"
| "truthy (PStr s) = (s \<noteq> [])"
| "truthy (PList xs) = (xs \<noteq> [])"
| "truthy (PTuple xs) = (xs \<noteq> [])"
| "truthy (PDict kvs) = (kvs \<noteq> [])"

text \<open>
  The number an \<open>int\<close>, \<open>float\<close> or \<open>bool\<close> stands for in arithmetic and comparison.
\<close>

fun num_val :: "pyval \<Rightarrow> real option" where
  "num_val (PBool b) = Some (if b then 1 else 0)"
| "num_val (PInt i) = Some (of_int i)"
| "num_val (PFloat x) = Some x"
| "num_val _ = None"

text \<open>
  Python's \<open>==\<close>: numbers compare by value across \<open>int\<close>, \<open>float\<close> and \<open>bool\<close>, lists and
  tuples elementwise, dicts as sets of entries whatever their order.
\<close>

fun py_eq :: "pyval \<Rightarrow> pyval \<Rightarrow> bool" where
  "py_eq PNone PNone = True"
| "py_eq (PStr s) (PStr t) = (s = t)"
| "py_eq (PList xs) (PList ys) = (length xs = length ys \<and> list_all2 py_eq xs ys)"
| "py_eq (PTuple xs) (PTuple ys) = (length xs = length ys \<and> list_all2 py_eq xs ys)"
| "py_eq (PDict a) (PDict b) =
     (length a = length b \<and>
      list_all (\<lambda>kv. list_ex (\<lambda>kv'. py_eq (fst kv) (fst kv') \<and> py_eq (snd kv) (snd kv')) b) a)"
| "py_eq x y = (case (num_val x, num_val y) of (Some u, Some v) \<Rightarrow> u = v | _ \<Rightarrow> False)"

text \<open>\<open>xs.index(x)\<close>: the position of the first element equal to \<open>x\<close>; \<open>None\<close> where Python
  raises \<open>ValueError\<close>.\<close>

fun list_index :: "pyval list \<Rightarrow> pyval \<Rightarrow> nat option" where
  "list_index [] x = None"
| "list_index (y # ys) x = (if py_eq y x then Some 0 else map_option Suc (list_index ys x))"

text \<open>Decimal digits of a natural number, and \<open>str\<close> of an integer.\<close>

fun show_nat :: "nat \<Rightarrow> string" where
  "show_nat n =
     (if n < 10 then [char_of (48 + n)]
      else show_nat (n div 10) @ [char_of (48 + n mod 10)])"

declare show_nat.simps [simp del]

definition show_int :: "int \<Rightarrow> string" where
  "show_int i = (if i < 0 then CHR ''-'' # show_nat (nat (- i)) else show_nat (nat i))"

text \<open>A row of the output: the dict built on lines 78--82.\<close>

record out_row =
  label :: pyval
  sampling_rate :: int
  time_series :: "real list"

subsection \<open>The host: library functions, double precision and files\<close>

text \<open>
  The script calls library functions whose code is not part of it, and runs on a machine
  whose arithmetic and files are not part of it either. They are parameters of the model,
  collected in one record; the theorems hold for every host.
  \<^item> \<open>literal_eval\<close>: \<open>ast.literal_eval\<close> on a string, \<open>None\<close> where it raises;
  \<^item> \<open>ndjson_load\<close>: \<open>ndjson.load\<close> on the text of a file, the list of the decoded lines,
    \<open>None\<close> where it raises;
  \<^item> \<open>float_of_str\<close>, \<open>int_of_str\<close>: \<open>float(s)\<close> and \<open>int(s)\<close> on a string, \<open>None\<close> where
    they raise;
  \<^item> \<open>repr_of\<close>: \<open>str\<close> of a float or of a container, \<open>None\<close> where it raises;
  \<^item> \<open>json_dumps\<close>: \<open>json.dumps\<close> on an output row (label, sampling rate, samples);
  \<^item> \<open>fdiv\<close>: the double-precision quotient \<open>x / y\<close> of two floats, \<open>y\<close> not zero;
  \<^item> \<open>arange_raises\<close>: the error \<open>np.arange\<close> raises when asked for that many points
    (\<open>ValueError\<close> beyond the maximum size of an array, \<open>MemoryError\<close>), \<open>None\<close> when it
    returns the array;
  \<^item> \<open>arange_overflow\<close>: the error \<open>np.arange\<close> raises when its stop is an integer
    too large for a float;
  \<^item> \<open>max_str_digits\<close>: the limit on the digits of an integer converted to a string
    (\<open>4300\<close> on CPython 3.11 and later), \<open>None\<close> where there is no limit.
\<close>

record host =
  literal_eval :: "string \<Rightarrow> pyval option"
  ndjson_load :: "string \<Rightarrow> pyval list option"
  float_of_str :: "string \<Rightarrow> real option"
  int_of_str :: "string \<Rightarrow> int option"
  repr_of :: "pyval \<Rightarrow> string option"
  json_dumps :: "out_row \<Rightarrow> string"
  fdiv :: "real \<Rightarrow> real \<Rightarrow> real"
  arange_raises :: "int \<Rightarrow> error option"
  arange_overflow :: error
  max_str_digits :: "nat option"

text \<open>
  The files: a path that can be opened for reading maps to the text read from it
  (decoded, line ends translated to the newline character).
\<close>

type_synonym fs = "string \<rightharpoonup> string"

definition newline :: char where
  "newline = CHR 0x0A"

definition colon :: char where
  "colon = CHR '':''"

text \<open>Sequencing of computations that can raise.\<close>

definition bind_result :: "error + 'a \<Rightarrow> ('a \<Rightarrow> error + 'b) \<Rightarrow> error + 'b" where
  "bind_result m k = (case m of Inl e \<Rightarrow> Inl e | Inr x \<Rightarrow> k x)"

subsection \<open>Integers and floats\<close>

text \<open>
  \<open>float(i)\<close> on an integer, and the conversion of an integer operand of a float
  operation: to the nearest double, \<open>OverflowError\<close> when that is beyond the largest one,
  which is from \<open>2^1024 - 2^970\<close> on. Within the range the value is taken unrounded.
\<close>

definition float_limit :: int where
  "float_limit = 2 ^ 1024 - 2 ^ 970"

definition float_of_int :: "int \<Rightarrow> error + real" where
  "float_of_int i = (if \<bar>i\<bar> \<ge> float_limit then Inl OverflowError else Inr (of_int i))"

text \<open>
  \<open>str(i)\<close> on an integer, also inside an f-string: \<open>ValueError\<close> when the integer has
  more digits than the limit.
\<close>

definition str_of_int :: "host \<Rightarrow> int \<Rightarrow> error + string" where
  "str_of_int h i =
     (case max_str_digits h of
        None \<Rightarrow> Inr (show_int i)
      | Some m \<Rightarrow>
          if length (show_nat (nat \<bar>i\<bar>)) > m then Inl ValueError else Inr (show_int i))"

subsection \<open>Signal synthesis (lines 38--51)\<close>

text \<open>
  The double-precision quotient of two floats; a zero numerator gives zero.
\<close>

definition fquot :: "host \<Rightarrow> real \<Rightarrow> real \<Rightarrow> real" where
  "fquot h x y = (if x = 0 then 0 else fdiv h x y)"

text \<open>
  \<open>np.arange(start, stop, step)\<close>: \<open>ceil((stop - start) / step)\<close> points, the quotient
  taken in double precision (none when that number is not positive), the \<open>i\<close>-th being
  \<open>start + i * step\<close>; or the error the library raises for that many points. A stop
  beyond the range of the doubles is an integer too large for a float, and the library
  raises.
\<close>

definition arange :: "host \<Rightarrow> real \<Rightarrow> real \<Rightarrow> real \<Rightarrow> error + real list" where
  "arange h start stop step =
     (if \<bar>stop\<bar> \<ge> of_int float_limit then Inl (arange_overflow h)
      else
        let n = \<lceil>fquot h (stop - start) step\<rceil>
        in (case arange_raises h n of
              Some e \<Rightarrow> Inl e
            | None \<Rightarrow> Inr (map (\<lambda>i. start + real i * step) [0..<nat n])))"

text \<open>Line 46: \<open>std = width if width > 0 else duration/8\<close>.\<close>

definition envelope_std :: "real \<Rightarrow> real \<Rightarrow> real" where
  "envelope_std width duration = (if width > 0 then width else duration / 8)"

text \<open>
  \<open>synthesize_signal(freq, width, amp, sampling_rate, duration)\<close>, on the arguments
  \<open>main\<close> passes: \<open>freq\<close>, \<open>width\<close> and \<open>amp\<close> are floats (results of \<open>float\<close>),
  \<open>sampling_rate\<close> is an integer (a result of \<open>int\<close>) and \<open>duration\<close> a float or an
  integer. A sampling rate or a duration beyond the range of the doubles is therefore an
  integer too large for a float. In
  \<open>1.0/sampling_rate\<close> an integer sampling rate is converted to a float first, which
  raises \<open>OverflowError\<close> when it is too large, and the division raises
  \<open>ZeroDivisionError\<close> at \<open>0\<close>. The arrays of numpy are lists and its elementwise
  operations are \<open>map\<close> and \<open>map2\<close>. The result is the pair \<open>(t, signal + noise)\<close>
  together with the random source after the call. (\<open>rate\<close> is the parameter
  \<open>sampling_rate\<close>.)
\<close>

definition synthesize_signal ::
  "host \<Rightarrow> real \<Rightarrow> real \<Rightarrow> real \<Rightarrow> real \<Rightarrow> real \<Rightarrow> rng
     \<Rightarrow> error + ((real list \<times> real list) \<times> rng)" where
  "synthesize_signal h freq width amp rate duration g =
     (if \<bar>rate\<bar> \<ge> of_int float_limit then Inl OverflowError
      else if rate = 0 then Inl ZeroDivisionError
      else
        (case arange h 0 duration (fdiv h 1 rate) of
           Inl e \<Rightarrow> Inl e
         | Inr t \<Rightarrow>
             let carrier = map (\<lambda>x. amp * sin (2 * pi * freq * x)) t;
                 std = envelope_std width duration;
                 env = map (\<lambda>x. exp (- 0.5 * ((x - duration / 2) / std)\<^sup>2)) t;
                 signal = map2 (*) carrier env;
                 (z, g') = randn (length t) g;
                 noise = map (\<lambda>x. 0.05 * amp * x) z
             in Inr ((t, map2 (+) signal noise), g')))"


subsection \<open>String operations\<close>

text \<open>\<open>for line in f\<close>: the lines of a text, each with its newline when it has one.\<close>

fun readlines :: "string \<Rightarrow> string list" where
  "readlines [] = []"
| "readlines (c # cs) =
     (if c = newline then [c] # readlines cs
      else (case readlines cs of [] \<Rightarrow> [[c]] | l # ls \<Rightarrow> (c # l) # ls))"

text \<open>
  \<open>s.split(sep, 1)\<close>: scan for the first separator; two parts when there is one, the
  whole string otherwise. \<open>acc\<close> holds the characters passed, last first.
\<close>

fun split1_from :: "char \<Rightarrow> string \<Rightarrow> string \<Rightarrow> string list" where
  "split1_from sep acc [] = [rev acc]"
| "split1_from sep acc (c # cs) =
     (if c = sep then [rev acc, cs] else split1_from sep (c # acc) cs)"

definition split1 :: "char \<Rightarrow> string \<Rightarrow> string list" where
  "split1 sep s = split1_from sep [] s"

text \<open>
  \<open>str.isspace\<close> on one character (code points below 256): tab, line feed, vertical tab,
  form feed, carriage return, the separators \<open>0x1C\<close> to \<open>0x1F\<close>, space, \<open>0x85\<close> and \<open>0xA0\<close>;
  and \<open>s.strip()\<close>.
\<close>

definition isspace :: "char \<Rightarrow> bool" where
  "isspace c = (of_char c \<in> {9, 10, 11, 12, 13, 28, 29, 30, 31, 32, 133, 160 :: nat})"

definition strip :: "string \<Rightarrow> string" where
  "strip s = rev (dropWhile isspace (rev (dropWhile isspace s)))"

subsection \<open>Key-value parser (lines 14--29)\<close>

text \<open>
  The body of the loop over the lines, with the dict \<open>meta\<close> passed along. The unpacking
  \<open>key, val = line.split(':', 1)\<close> raises \<open>ValueError\<close> unless the split has two parts.
  \<open>except Exception\<close> catches whatever \<open>ast.literal_eval\<close> raises.
\<close>

fun parse_lines :: "host \<Rightarrow> string list \<Rightarrow> (string \<rightharpoonup> pyval) \<Rightarrow> error + (string \<rightharpoonup> pyval)" where
  "parse_lines h [] meta = Inr meta"
| "parse_lines h (line # rest) meta =
     (if colon \<notin> set line then parse_lines h rest meta
      else
        (case split1 colon line of
           [key, val] \<Rightarrow>
             (let key = strip key;
                  val = strip val
              in (case literal_eval h val of
                    Some v \<Rightarrow> parse_lines h rest (meta(key \<mapsto> v))
                  | None \<Rightarrow> parse_lines h rest (meta(key \<mapsto> PStr val))))
         | _ \<Rightarrow> Inl ValueError))"

definition parse_key_value_am :: "host \<Rightarrow> fs \<Rightarrow> string \<Rightarrow> error + (string \<rightharpoonup> pyval)" where
  "parse_key_value_am h files path =
     (case files path of
        None \<Rightarrow> Inl OSError
      | Some text \<Rightarrow> parse_lines h (readlines text) Map.empty)"

subsection \<open>Signature loader (lines 31--36)\<close>

definition load_signatures ::
  "host \<Rightarrow> fs \<Rightarrow> string \<Rightarrow> string \<Rightarrow> error + (pyval list \<times> (string \<rightharpoonup> pyval))" where
  "load_signatures h files path_ndjson path_am =
     (case files path_ndjson of
        None \<Rightarrow> Inl OSError
      | Some text \<Rightarrow>
          (case ndjson_load h text of
             None \<Rightarrow> Inl JSONDecodeError
           | Some sigs \<Rightarrow>
               bind_result (parse_key_value_am h files path_am) (\<lambda>meta. Inr (sigs, meta))))"

subsection \<open>The parser as the specification words it\<close>

text \<open>
  For a line with a colon: the key is the text before the first colon, trimmed; the value
  is the text after it, trimmed, read as a literal when it is one and kept as a string
  otherwise.
\<close>

definition entry_key :: "string \<Rightarrow> string" where
  "entry_key line = strip (takeWhile (\<lambda>c. c \<noteq> colon) line)"

definition entry_value :: "host \<Rightarrow> string \<Rightarrow> pyval" where
  "entry_value h line =
     (let val = strip (tl (dropWhile (\<lambda>c. c \<noteq> colon) line))
      in (case literal_eval h val of Some v \<Rightarrow> v | None \<Rightarrow> PStr val))"

subsection \<open>Conversions and formatting\<close>

text \<open>
  \<open>d.get(key, default)\<close> on a signature, which is whatever value its line decoded to: a
  value that is not a dict has no \<open>get\<close> and the call raises \<open>AttributeError\<close>. On the
  dicts of the key-value parser, which always are dicts, \<open>get\<close> cannot raise.
\<close>

definition dict_get :: "pyval \<Rightarrow> string \<Rightarrow> pyval \<Rightarrow> error + pyval" where
  "dict_get d key dflt =
     (case d of
        PDict kvs \<Rightarrow> Inr (case map_of kvs (PStr key) of Some v \<Rightarrow> v | None \<Rightarrow> dflt)
      | _ \<Rightarrow> Inl AttributeError)"

definition meta_get :: "(string \<rightharpoonup> pyval) \<Rightarrow> string \<Rightarrow> pyval \<Rightarrow> pyval" where
  "meta_get meta key dflt = (case meta key of Some v \<Rightarrow> v | None \<Rightarrow> dflt)"

text \<open>
  \<open>float(v)\<close> and \<open>int(v)\<close>; \<open>float\<close> of an integer too large raises \<open>OverflowError\<close>,
  \<open>int\<close> truncates a float towards zero.
\<close>

fun py_float :: "host \<Rightarrow> pyval \<Rightarrow> error + real" where
  "py_float h (PFloat x) = Inr x"
| "py_float h (PInt i) = float_of_int i"
| "py_float h (PBool b) = Inr (if b then 1 else 0)"
| "py_float h (PStr s) = (case float_of_str h s of Some x \<Rightarrow> Inr x | None \<Rightarrow> Inl ValueError)"
| "py_float h _ = Inl TypeError"

fun py_int :: "host \<Rightarrow> pyval \<Rightarrow> error + int" where
  "py_int h (PInt i) = Inr i"
| "py_int h (PBool b) = Inr (if b then 1 else 0)"
| "py_int h (PFloat x) = Inr (if 0 \<le> x then \<lfloor>x\<rfloor> else \<lceil>x\<rceil>)"
| "py_int h (PStr s) = (case int_of_str h s of Some i \<Rightarrow> Inr i | None \<Rightarrow> Inl ValueError)"
| "py_int h _ = Inl TypeError"

text \<open>
  \<open>duration/8\<close> on line 74. Two integers are divided exactly and the quotient is
  rounded to a float, \<open>OverflowError\<close> when it is beyond the largest one; a value that is
  no number raises \<open>TypeError\<close>.
\<close>

fun py_div8 :: "pyval \<Rightarrow> error + real" where
  "py_div8 (PFloat x) = Inr (x / 8)"
| "py_div8 (PInt i) =
     (if \<bar>i\<bar> \<ge> 8 * float_limit then Inl OverflowError else Inr (of_int i / 8))"
| "py_div8 (PBool b) = Inr ((if b then 1 else 0) / 8)"
| "py_div8 _ = Inl TypeError"

text \<open>
  The number a value stands for, with which \<open>duration\<close> is handed to
  \<open>synthesize_signal\<close> on line 77. This is no operation of the script and converts
  nothing: an integer stays the integer it is, also beyond the range of the floats,
  where \<open>np.arange\<close> then raises. A value that is no number has raised \<open>TypeError\<close> on
  line 74 already.
\<close>

definition number_of :: "pyval \<Rightarrow> error + real" where
  "number_of v = (case num_val v of Some x \<Rightarrow> Inr x | None \<Rightarrow> Inl TypeError)"

text \<open>
  \<open>str(v)\<close>, which is what an f-string field \<open>{v}\<close> renders: a string as it is, without
  quotes; an integer in decimal, \<open>ValueError\<close> when it has too many digits; \<open>None\<close>,
  \<open>True\<close> and \<open>False\<close> by name; floats and containers by the host.
\<close>

fun py_str :: "host \<Rightarrow> pyval \<Rightarrow> error + string" where
  "py_str h (PStr s) = Inr s"
| "py_str h (PInt i) = str_of_int h i"
| "py_str h PNone = Inr ''None''"
| "py_str h (PBool b) = Inr (if b then ''True'' else ''False'')"
| "py_str h v = (case repr_of h v of Some s \<Rightarrow> Inr s | None \<Rightarrow> Inl ValueError)"

subsection \<open>The main program (lines 53--99)\<close>

text \<open>The command line, parsed: the five required paths.\<close>

record args =
  signatures :: string
  signature_meta :: string
  instrument_spec :: string
  output_ndjson :: string
  output_meta :: string

text \<open>
  Line 72, right of \<open>or\<close>:
  \<open>f"{sig_meta.get('TheoryVariant','sig')}_{sigs.index(sig)+1}"\<close>, the fields rendered
  from left to right.
\<close>

definition generated_label ::
  "host \<Rightarrow> (string \<rightharpoonup> pyval) \<Rightarrow> pyval list \<Rightarrow> pyval \<Rightarrow> error + string" where
  "generated_label h sig_meta sigs sig =
     bind_result (py_str h (meta_get sig_meta ''TheoryVariant'' (PStr ''sig''))) (\<lambda>variant.
       case list_index sigs sig of
         None \<Rightarrow> Inl ValueError
       | Some i \<Rightarrow>
           bind_result (str_of_int h (int i + 1)) (\<lambda>n. Inr (variant @ ''_'' @ n)))"

text \<open>Line 72: \<open>label = sig.get('label') or f"..."\<close>.\<close>

definition resolve_label ::
  "host \<Rightarrow> (string \<rightharpoonup> pyval) \<Rightarrow> pyval list \<Rightarrow> pyval \<Rightarrow> error + pyval" where
  "resolve_label h sig_meta sigs sig =
     bind_result (dict_get sig ''label'' PNone) (\<lambda>l.
       if truthy l then Inr l
       else bind_result (generated_label h sig_meta sigs sig) (\<lambda>s. Inr (PStr s)))"

text \<open>
  Lines 72--82, the body of the loop for one signature: the row and the random source
  after the call of \<open>synthesize_signal\<close>. The default \<open>duration/8\<close> is computed before
  \<open>get\<close> is called, whether the signature has a width or not.
\<close>

definition make_row ::
  "host \<Rightarrow> (string \<rightharpoonup> pyval) \<Rightarrow> pyval list \<Rightarrow> int \<Rightarrow> pyval \<Rightarrow> pyval \<Rightarrow> rng
     \<Rightarrow> error + (out_row \<times> rng)" where
  "make_row h sig_meta sigs sr duration sig g =
     bind_result (resolve_label h sig_meta sigs sig) (\<lambda>lab.
     bind_result (dict_get sig ''frequency'' (PFloat 0)) (\<lambda>fv.
     bind_result (py_float h fv) (\<lambda>freq.
     bind_result (py_div8 duration) (\<lambda>d8.
     bind_result (dict_get sig ''width'' (PFloat d8)) (\<lambda>wv.
     bind_result (py_float h wv) (\<lambda>width.
     bind_result (dict_get sig ''amplitude'' (PFloat 1)) (\<lambda>av.
     bind_result (py_float h av) (\<lambda>amplitude.
     bind_result (number_of duration) (\<lambda>d.
     bind_result (synthesize_signal h freq width amplitude (of_int sr) d g) (\<lambda>((t, ts), g').
       Inr (\<lparr>label = lab, sampling_rate = sr, time_series = ts\<rparr>, g')))))))))))"

text \<open>Lines 70--82: the loop over \<open>sigs\<close>, appending to \<open>out_nd\<close>.\<close>

fun rows_loop ::
  "host \<Rightarrow> (string \<rightharpoonup> pyval) \<Rightarrow> pyval list \<Rightarrow> int \<Rightarrow> pyval \<Rightarrow> pyval list \<Rightarrow> out_row list \<Rightarrow> rng
     \<Rightarrow> error + (out_row list \<times> rng)" where
  "rows_loop h sig_meta sigs sr duration [] out_nd g = Inr (out_nd, g)"
| "rows_loop h sig_meta sigs sr duration (sig # rest) out_nd g =
     (case make_row h sig_meta sigs sr duration sig g of
        Inl e \<Rightarrow> Inl e
      | Inr (row, g') \<Rightarrow> rows_loop h sig_meta sigs sr duration rest (out_nd @ [row]) g')"

text \<open>Lines 83--86: one \<open>writerow\<close> per row, which writes \<open>json.dumps(row)\<close> and a newline.\<close>

definition ndjson_text :: "host \<Rightarrow> out_row list \<Rightarrow> string" where
  "ndjson_text h out_nd = concat (map (\<lambda>row. json_dumps h row @ [newline]) out_nd)"

text \<open>
  Lines 90--96: the text written to the summary file, one \<open>write\<close> after the other; a
  field that cannot be rendered raises and ends the writing.
\<close>

definition summary_text :: "host \<Rightarrow> (string \<rightharpoonup> pyval) \<Rightarrow> int \<Rightarrow> nat \<Rightarrow> error + string" where
  "summary_text h inst sr injection_count =
     bind_result (py_str h (meta_get inst ''InstrumentType'' PNone)) (\<lambda>it.
     bind_result (str_of_int h sr) (\<lambda>srs.
     bind_result (py_str h (meta_get inst ''NoiseModel'' PNone)) (\<lambda>nm.
     bind_result (str_of_int h (int injection_count)) (\<lambda>cnt.
       Inr (''[ ''
            @ (''InstrumentType = '' @ it @ '', '')
            @ (''SamplingRate = '' @ srs @ '', '')
            @ (''NoiseModel = '' @ nm @ '', '')
            @ (''InjectionCount = '' @ cnt @ '' '')
            @ ('']'' @ [newline]))))))"

text \<open>
  \<open>main\<close>, from the parsed command line: the files after the run, the two lines printed
  and the random source left. The files are read before any is written. A path that
  cannot be written is not modelled, and when \<open>main\<close> raises the model gives the error,
  not the state the output files are left in.
\<close>

definition main :: "host \<Rightarrow> args \<Rightarrow> fs \<Rightarrow> rng \<Rightarrow> error + (fs \<times> string list \<times> rng)" where
  "main h a files g =
     bind_result (load_signatures h files (signatures a) (signature_meta a)) (\<lambda>(sigs, sig_meta).
     bind_result (parse_key_value_am h files (instrument_spec a)) (\<lambda>inst.
     bind_result (py_int h (meta_get inst ''SamplingRate'' (PInt 4096))) (\<lambda>sr.
       let duration = meta_get inst ''Duration'' (PFloat 1)
       in bind_result (rows_loop h sig_meta sigs sr duration sigs [] g) (\<lambda>(out_nd, g').
            let files1 = files(output_ndjson a \<mapsto> ndjson_text h out_nd);
                injection_count = length out_nd
            in bind_result (summary_text h inst sr injection_count) (\<lambda>summary.
               bind_result (str_of_int h (int injection_count)) (\<lambda>cnt.
                 Inr (files1(output_meta a \<mapsto> summary),
                      [''Wrote '' @ cnt @ '' mock signals to '' @ output_ndjson a,
                       ''Wrote summary to '' @ output_meta a],
                      g')))))))"

subsection \<open>Valid input and one-line text, as the specification words them\<close>

text \<open>
  The number of points line 43 asks \<open>np.arange\<close> for: the ceiling of the
  double-precision quotient of the duration by the step \<open>1.0/sampling_rate\<close>.
\<close>

definition axis_points :: "host \<Rightarrow> real \<Rightarrow> real \<Rightarrow> int" where
  "axis_points h rate duration = \<lceil>fquot h (duration - 0) (fdiv h 1 rate)\<rceil>"

text \<open>
  A valid signature, after the record schema of the specification: a JSON object whose
  \<open>frequency\<close>, \<open>width\<close> and \<open>amplitude\<close>, where present, are numbers, a float or an
  integer within the range of the floats.
\<close>

definition number_field :: "(pyval \<times> pyval) list \<Rightarrow> string \<Rightarrow> bool" where
  "number_field kvs key =
     (case map_of kvs (PStr key) of
        None \<Rightarrow> True
      | Some v \<Rightarrow>
          (case v of PInt i \<Rightarrow> \<bar>i\<bar> < float_limit | PFloat x \<Rightarrow> True | _ \<Rightarrow> False))"

fun valid_signature :: "pyval \<Rightarrow> bool" where
  "valid_signature (PDict kvs) =
     (number_field kvs ''frequency'' \<and> number_field kvs ''width'' \<and> number_field kvs ''amplitude'')"
| "valid_signature _ = False"

text \<open>
  A valid duration: a float, or an integer within the range of the floats. (The reals of
  the model that stand for a float are the ones within that range.)
\<close>

fun valid_duration :: "pyval \<Rightarrow> bool" where
  "valid_duration (PFloat x) = (\<bar>x\<bar> < of_int float_limit)"
| "valid_duration (PInt i) = (\<bar>i\<bar> < float_limit)"
| "valid_duration _ = False"

text \<open>An integer the host converts to a string: one within the limit on the digits.\<close>

definition printable :: "host \<Rightarrow> int \<Rightarrow> bool" where
  "printable h i =
     (case max_str_digits h of
        None \<Rightarrow> True
      | Some m \<Rightarrow> length (show_nat (nat \<bar>i\<bar>)) \<le> m)"


subsection \<open>The end-to-end scenario of the specification\<close>

text \<open>
  One signature with label \<open>s1\<close>, frequency \<open>10\<close>, width \<open>0.1\<close> and amplitude \<open>2.0\<close>; an
  instrument file with the lines \<open>SamplingRate: 100\<close> and \<open>Duration: 1.0\<close>; an empty
  metadata file. The host reads the two literals of the instrument file and decodes the
  signature file to the one signature. Its quotient is the exact one, which is the
  double-precision quotient where the exact one is a double, as it is for the sampling
  rates and durations of the examples below.
\<close>

definition scenario_host :: host where
  "scenario_host =
     \<lparr>literal_eval =
        (\<lambda>s. if s = ''100'' then Some (PInt 100)
             else if s = ''1.0'' then Some (PFloat 1) else None),
      ndjson_load =
        (\<lambda>s. Some [PDict [(PStr ''label'', PStr ''s1''), (PStr ''frequency'', PInt 10),
                          (PStr ''width'', PFloat (1 / 10)), (PStr ''amplitude'', PFloat 2)]]),
      float_of_str = (\<lambda>s. None),
      int_of_str = (\<lambda>s. None),
      repr_of = (\<lambda>v. None),
      json_dumps = (\<lambda>r. []),
      fdiv = (\<lambda>x y. x / y),
      arange_raises = (\<lambda>n. if n > 2 ^ 63 then Some ValueError else None),
      arange_overflow = OverflowError,
      max_str_digits = Some 4300\<rparr>"

definition scenario_args :: args where
  "scenario_args =
     \<lparr>signatures = ''sigs.ndjson'', signature_meta = ''sigs.am'',
      instrument_spec = ''inst.am'', output_ndjson = ''out.ndjson'',
      output_meta = ''out.am''\<rparr>"

definition scenario_files :: fs where
  "scenario_files =
     [''sigs.ndjson'' \<mapsto> ''s1'',
      ''sigs.am'' \<mapsto> [],
      ''inst.am'' \<mapsto> ''SamplingRate: 100'' @ [newline] @ ''Duration: 1.0'' @ [newline]]"

section \<open>Properties of the synthesizer\<close>

lemma float_limit_large: "2 ^ 64 < float_limit"
  by (simp add: float_limit_def)

lemma small_in_float_range: "\<bar>i\<bar> \<le> 2 ^ 64 \<Longrightarrow> \<not> \<bar>real_of_int i\<bar> \<ge> of_int float_limit"
proof -
  assume "\<bar>i\<bar> \<le> 2 ^ 64"
  with float_limit_large have "\<bar>i\<bar> < float_limit" by linarith
  then have "real_of_int \<bar>i\<bar> < of_int float_limit" by (simp only: of_int_less_iff)
  then show ?thesis by simp
qed

lemma arange_Inr:
  assumes "\<not> \<bar>stop\<bar> \<ge> of_int float_limit"
    and "arange_raises h \<lceil>fquot h (stop - start) step\<rceil> = None"
  shows "arange h start stop step
           = Inr (map (\<lambda>i. start + real i * step) [0..<nat \<lceil>fquot h (stop - start) step\<rceil>])"
  using assms by (simp add: arange_def Let_def)

text \<open>
  The envelope divides by \<open>std\<close>, which is \<open>0\<close> only when the duration is \<open>0\<close>; the time
  axis is empty then, so the model never divides by zero on a sample.
\<close>

lemma std_zero_no_samples:
  assumes "envelope_std width duration = 0" and "arange h 0 duration step = Inr t"
  shows "t = []"
proof -
  from assms(1) have "duration = 0" by (simp add: envelope_std_def split: if_splits)
  with assms(2) show ?thesis
    by (auto simp: arange_def fquot_def Let_def split: if_splits option.splits)
qed

text \<open>When the call raises, and what it returns when it does not.\<close>

lemma synthesize_signal_Inl:
  "synthesize_signal h f w a sr d g = Inl e \<longleftrightarrow>
     (\<bar>sr\<bar> \<ge> of_int float_limit \<and> e = OverflowError)
     \<or> (\<not> \<bar>sr\<bar> \<ge> of_int float_limit \<and> sr = 0 \<and> e = ZeroDivisionError)
     \<or> (\<not> \<bar>sr\<bar> \<ge> of_int float_limit \<and> sr \<noteq> 0 \<and> \<bar>d\<bar> \<ge> of_int float_limit
          \<and> e = arange_overflow h)
     \<or> (\<not> \<bar>sr\<bar> \<ge> of_int float_limit \<and> sr \<noteq> 0 \<and> \<not> \<bar>d\<bar> \<ge> of_int float_limit
          \<and> arange_raises h (axis_points h sr d) = Some e)"
  unfolding synthesize_signal_def arange_def axis_points_def Let_def randn_def
  by (auto split: option.splits)

lemma synthesize_signal_Inr:
  assumes "\<not> \<bar>sr\<bar> \<ge> of_int float_limit" and "sr \<noteq> 0"
    and "\<not> \<bar>d\<bar> \<ge> of_int float_limit"
    and "arange_raises h (axis_points h sr d) = None"
  obtains ts ys where
    "synthesize_signal h f w a sr d g = Inr ((ts, ys), \<lambda>i. g (i + length ts))"
    "ts = map (\<lambda>i. 0 + real i * fdiv h 1 sr) [0..<nat (axis_points h sr d)]"
    "length ys = length ts"
    "\<And>i. i < length ys \<Longrightarrow>
       ys ! i = a * sin (2 * pi * f * (ts ! i))
                  * exp (- 0.5 * ((ts ! i - d / 2) / envelope_std w d)\<^sup>2)
                + 0.05 * a * g i"
proof -
  let ?t = "map (\<lambda>i. 0 + real i * fdiv h 1 sr) [0..<nat (axis_points h sr d)]"
  let ?ys = "map2 (+)
             (map2 (*) (map (\<lambda>x. a * sin (2 * pi * f * x)) ?t)
                (map (\<lambda>x. exp (- 0.5 * ((x - d / 2) / envelope_std w d)\<^sup>2)) ?t))
             (map (\<lambda>x. 0.05 * a * x) (map g [0..<length ?t]))"
  have ar: "arange h 0 d (fdiv h 1 sr) = Inr ?t"
    using assms(3,4) unfolding axis_points_def by (rule arange_Inr)
  have 1: "synthesize_signal h f w a sr d g = Inr ((?t, ?ys), \<lambda>i. g (i + length ?t))"
    unfolding synthesize_signal_def ar randn_def Let_def
    by (simp only: assms if_False prod.case sum.case)
  have 2: "length ?ys = length ?t" by simp
  have 3: "?ys ! i = a * sin (2 * pi * f * (?t ! i))
                  * exp (- 0.5 * ((?t ! i - d / 2) / envelope_std w d)\<^sup>2)
                + 0.05 * a * g i" if "i < length ?ys" for i
    using that by simp
  show thesis using that[OF 1 refl 2 3] by blast
qed

lemma synthesize_signal_InrD:
  assumes "synthesize_signal h f w a sr d g = Inr ((ts, ys), g')"
  shows "\<not> \<bar>sr\<bar> \<ge> of_int float_limit" and "sr \<noteq> 0" and "\<not> \<bar>d\<bar> \<ge> of_int float_limit"
    and "arange_raises h (axis_points h sr d) = None"
    and "ts = map (\<lambda>i. 0 + real i * fdiv h 1 sr) [0..<nat (axis_points h sr d)]"
    and "length ys = length ts"
    and "\<forall>i<length ts.
           ys ! i = a * sin (2 * pi * f * (ts ! i))
                      * exp (- 0.5 * ((ts ! i - d / 2) / envelope_std w d)\<^sup>2)
                    + 0.05 * a * g i"
proof -
  have ne: "\<forall>e. synthesize_signal h f w a sr d g \<noteq> Inl e" using assms by simp
  show c1: "\<not> \<bar>sr\<bar> \<ge> of_int float_limit"
    using ne synthesize_signal_Inl[of h f w a sr d g OverflowError] by blast
  show c2: "sr \<noteq> 0"
    using ne c1 synthesize_signal_Inl[of h f w a sr d g ZeroDivisionError] by blast
  show c3: "\<not> \<bar>d\<bar> \<ge> of_int float_limit"
    using ne c1 c2 synthesize_signal_Inl[of h f w a sr d g "arange_overflow h"] by blast
  show c4: "arange_raises h (axis_points h sr d) = None"
  proof (cases "arange_raises h (axis_points h sr d)")
    case None
    then show ?thesis .
  next
    case (Some e)
    with c1 c2 c3 synthesize_signal_Inl[of h f w a sr d g e] ne show ?thesis by blast
  qed
  from synthesize_signal_Inr[OF c1 c2 c3 c4, of f w a g] obtain ts' ys' where
    r: "synthesize_signal h f w a sr d g = Inr ((ts', ys'), \<lambda>i. g (i + length ts'))"
    and t: "ts' = map (\<lambda>i. 0 + real i * fdiv h 1 sr) [0..<nat (axis_points h sr d)]"
    and l: "length ys' = length ts'"
    and n: "\<And>i. i < length ys' \<Longrightarrow>
       ys' ! i = a * sin (2 * pi * f * (ts' ! i))
                  * exp (- 0.5 * ((ts' ! i - d / 2) / envelope_std w d)\<^sup>2)
                + 0.05 * a * g i"
    by blast
  from r assms have e: "ts = ts'" "ys = ys'" by simp_all
  show "ts = map (\<lambda>i. 0 + real i * fdiv h 1 sr) [0..<nat (axis_points h sr d)]"
    using t e by simp
  show "length ys = length ts" using l e by simp
  show "\<forall>i<length ts.
           ys ! i = a * sin (2 * pi * f * (ts ! i))
                      * exp (- 0.5 * ((ts ! i - d / 2) / envelope_std w d)\<^sup>2)
                    + 0.05 * a * g i"
    using n l e by simp
qed


text \<open>The host of the scenario, and numbers within the range of the floats.\<close>

lemma scenario_host_simps:
  "fdiv scenario_host x y = x / y"
  "arange_raises scenario_host n = (if n > 2 ^ 63 then Some ValueError else None)"
  "arange_overflow scenario_host = OverflowError"
  "max_str_digits scenario_host = Some 4300"
  by (simp_all add: scenario_host_def)

lemma in_float_range:
  "\<not> \<bar>1 :: real\<bar> \<ge> of_int float_limit"
  "\<not> \<bar>4 :: real\<bar> \<ge> of_int float_limit"
  "\<not> \<bar>100 :: real\<bar> \<ge> of_int float_limit"
  "\<not> \<bar>9 / 4 :: real\<bar> \<ge> of_int float_limit"
proof -
  have l: "(2 ^ 64 :: real) < of_int float_limit"
    using float_limit_large by (metis of_int_less_iff of_int_numeral of_int_power)
  show "\<not> \<bar>1 :: real\<bar> \<ge> of_int float_limit" using l by simp
  show "\<not> \<bar>4 :: real\<bar> \<ge> of_int float_limit" using l by simp
  show "\<not> \<bar>100 :: real\<bar> \<ge> of_int float_limit" using l by simp
  show "\<not> \<bar>9 / 4 :: real\<bar> \<ge> of_int float_limit" using l by simp
qed

subsection \<open>C1: the samples, elementwise\<close>

text \<open>
  Claim C1. For every frequency \<open>f\<close>, width \<open>w\<close>, amplitude \<open>a\<close>, sampling rate \<open>sr\<close>,
  duration \<open>d\<close> and noise sequence \<open>g\<close>: whenever \<open>synthesize_signal\<close> returns, it returns
  as many samples as time points, and the sample at time \<open>t\<close> is
  \<open>a * sin (2 * pi * f * t)\<close> times the Gaussian envelope
  \<open>exp (- 0.5 * ((t - d / 2) / std)\<^sup>2)\<close>, with \<open>std = w\<close> if \<open>w > 0\<close> and \<open>d / 8\<close> otherwise,
  plus \<open>0.05 * a\<close> times the noise draw of that sample. Where it does not return there are
  no samples: line 43 raises at sampling rate \<open>0\<close> (\<open>ZeroDivisionError\<close>), at a sampling
  rate or a duration that is an integer too large for a float, and when \<open>np.arange\<close>
  rejects the number of points.
\<close>

theorem synthesize_signal_elementwise:
  "case synthesize_signal h f w a sr d g of
     Inl e \<Rightarrow>
       (\<bar>sr\<bar> \<ge> of_int float_limit \<and> e = OverflowError)
       \<or> (sr = 0 \<and> e = ZeroDivisionError)
       \<or> (\<bar>d\<bar> \<ge> of_int float_limit \<and> e = arange_overflow h)
       \<or> arange_raises h (axis_points h sr d) = Some e
   | Inr ((ts, ys), g') \<Rightarrow>
       sr \<noteq> 0 \<and> length ys = length ts \<and>
       (\<forall>i<length ts.
          ys ! i = a * sin (2 * pi * f * (ts ! i))
                     * exp (- 0.5 * ((ts ! i - d / 2) / (if w > 0 then w else d / 8))\<^sup>2)
                   + 0.05 * a * g i)"
proof (cases "synthesize_signal h f w a sr d g")
  case (Inl e)
  then show ?thesis
    using synthesize_signal_Inl[of h f w a sr d g e] by auto
next
  case (Inr r)
  obtain ts ys g' where r: "r = ((ts, ys), g')" by (metis prod.exhaust)
  from synthesize_signal_InrD[OF Inr[unfolded r]]
  show ?thesis unfolding Inr r by (simp add: envelope_std_def)
qed

text \<open>
  At \<open>f = 1/2\<close>, \<open>w = 1/10\<close>, \<open>a = 2\<close>, \<open>sr = 4\<close>, \<open>d = 1\<close> and the noise draws
  \<open>0, 1, 2, 3\<close>, the third sample is taken at \<open>t = 1/2\<close>: carrier \<open>2 * sin (pi / 2) = 2\<close>,
  envelope \<open>exp 0 = 1\<close>, noise \<open>0.05 * 2 * 2\<close>.
\<close>

theorem synthesize_signal_elementwise_witness:
  "\<exists>ts ys g'. synthesize_signal scenario_host (1/2) (1/10) 2 4 1 real = Inr ((ts, ys), g')
      \<and> length ts = 4 \<and> ts ! 2 = 1 / 2 \<and> ys ! 2 = 11 / 5"
proof -
  have p: "axis_points scenario_host 4 1 = 4"
    by (simp add: axis_points_def fquot_def scenario_host_simps)
  have ok: "arange_raises scenario_host (axis_points scenario_host 4 1) = None"
    unfolding p by (simp add: scenario_host_simps)
  have nz: "(4::real) \<noteq> 0" by simp
  from synthesize_signal_Inr[OF in_float_range(2) nz in_float_range(1) ok, of "1/2" "1/10" 2 real]
  obtain ts ys where
    r: "synthesize_signal scenario_host (1/2) (1/10) 2 4 1 real
          = Inr ((ts, ys), \<lambda>i. real (i + length ts))"
    and t: "ts = map (\<lambda>i. 0 + real i * fdiv scenario_host 1 4)
                  [0..<nat (axis_points scenario_host 4 1)]"
    by blast
  have l: "length ts = 4" unfolding t p by simp
  have t2: "ts ! 2 = 1 / 2" unfolding t p by (simp add: scenario_host_simps)
  have "\<forall>i<length ts.
          ys ! i = 2 * sin (2 * pi * (1/2) * (ts ! i))
                     * exp (- 0.5 * ((ts ! i - 1 / 2) / (if (1/10::real) > 0 then 1/10 else 1 / 8))\<^sup>2)
                   + 0.05 * 2 * real i"
    using synthesize_signal_elementwise[where h=scenario_host and f="1/2" and w="1/10"
        and a=2 and sr=4 and d=1 and g=real]
    unfolding r by simp
  then have "ys ! 2 = 2 * sin (2 * pi * (1/2) * (ts ! 2))
                     * exp (- 0.5 * ((ts ! 2 - 1 / 2) / (if (1/10::real) > 0 then 1/10 else 1 / 8))\<^sup>2)
                   + 0.05 * 2 * real 2"
    unfolding l by (simp del: One_nat_def)
  then have "ys ! 2 = 11 / 5" unfolding t2 by simp
  then show ?thesis using r l t2 by simp
qed

subsection \<open>C2: the time axis\<close>




text \<open>
  Where the quotients are rounded the count can exceed \<open>\<lceil>d * sr\<rceil>\<close>. At duration \<open>1\<close> and
  sampling rate \<open>49\<close> double precision gives a step just below \<open>1/49\<close> and a quotient
  just above \<open>49\<close>; on every host that does so, the series has \<open>50\<close> points.
\<close>

lemma time_axis_rounded_quotient:
  assumes "49 < fdiv h 1 (fdiv h 1 49)" and "fdiv h 1 (fdiv h 1 49) \<le> 50"
    and "arange_raises h 50 = None"
  shows "\<exists>ts ys g'. synthesize_signal h f w a 49 1 g = Inr ((ts, ys), g') \<and> length ys = 50"
proof -
  have c: "\<lceil>fdiv h 1 (fdiv h 1 49)\<rceil> = 50"
    using assms(1,2) by (simp add: ceiling_eq_iff)
  have p: "axis_points h 49 1 = 50"
    by (simp add: axis_points_def fquot_def c)
  have ok: "arange_raises h (axis_points h 49 1) = None"
    unfolding p by (rule assms(3))
  have l: "(2 ^ 64 :: real) < of_int float_limit"
    using float_limit_large by (metis of_int_less_iff of_int_numeral of_int_power)
  have r49: "\<not> \<bar>49 :: real\<bar> \<ge> of_int float_limit" using l by simp
  have nz: "(49::real) \<noteq> 0" by simp
  from synthesize_signal_Inr[OF r49 nz in_float_range(1) ok, of f w a g] obtain ts ys where
    r: "synthesize_signal h f w a 49 1 g = Inr ((ts, ys), \<lambda>i. g (i + length ts))"
    and t: "ts = map (\<lambda>i. 0 + real i * fdiv h 1 49) [0..<nat (axis_points h 49 1)]"
    and ly: "length ys = length ts"
    by blast
  have "length ys = 50" unfolding ly t p by simp
  with r show ?thesis by blast
qed

subsection \<open>C3: the width fallback\<close>

text \<open>
  Claim C3 as stated (no raise for any sampling rate) fails at sampling rate \<open>0\<close>: with
  width \<open>0\<close> the call raises \<open>ZeroDivisionError\<close> on line 43.
\<close>

theorem zero_width_raises_counterexample:
  "synthesize_signal scenario_host 1 0 1 0 1 (\<lambda>_. 0) = Inl ZeroDivisionError"
proof -
  have l: "(2 ^ 64 :: real) < of_int float_limit"
    using float_limit_large by (metis of_int_less_iff of_int_numeral of_int_power)
  then have "\<not> \<bar>0 :: real\<bar> \<ge> of_int float_limit" by simp
  then show ?thesis
    using synthesize_signal_Inl[of scenario_host 1 0 1 0 1 "\<lambda>_. 0" ZeroDivisionError] by simp
qed

text \<open>
  Claim C3, amended. For every width \<open>w \<le> 0\<close> (including \<open>0\<close>) and any frequency,
  amplitude, sampling rate and duration \<open>d\<close>, \<open>synthesize_signal\<close> does what it does with
  width \<open>d / 8\<close>: it uses \<open>d / 8\<close> as standard deviation, returns the same output on the same
  noise, and raises the same error where it raises; for \<open>w > 0\<close> the standard deviation
  is \<open>w\<close>. Whether the call raises does not depend on the width: it raises exactly when
  the sampling rate is \<open>0\<close>, when the sampling rate or the duration is an integer too
  large for a float, and when \<open>np.arange\<close> rejects the number of points; in every other
  case it returns, each sample built with that standard deviation.
\<close>

theorem width_fallback:
  "(w \<le> 0 \<longrightarrow>
      synthesize_signal h f w a sr d g = synthesize_signal h f (d / 8) a sr d g
      \<and> envelope_std w d = d / 8)
   \<and> (0 < w \<longrightarrow> envelope_std w d = w)
   \<and> ((\<exists>e. synthesize_signal h f w a sr d g = Inl e) \<longleftrightarrow>
        (\<bar>sr\<bar> \<ge> of_int float_limit \<or> sr = 0 \<or> \<bar>d\<bar> \<ge> of_int float_limit
         \<or> arange_raises h (axis_points h sr d) \<noteq> None))
   \<and> (\<forall>ts ys g'. synthesize_signal h f w a sr d g = Inr ((ts, ys), g') \<longrightarrow>
        (\<forall>i<length ts.
           ys ! i = a * sin (2 * pi * f * (ts ! i))
                      * exp (- 0.5 * ((ts ! i - d / 2) / envelope_std w d)\<^sup>2)
                    + 0.05 * a * g i))"
proof (intro conjI impI allI)
  assume w: "w \<le> 0"
  then have s: "envelope_std (d / 8) d = envelope_std w d"
    by (simp add: envelope_std_def)
  show "synthesize_signal h f w a sr d g = synthesize_signal h f (d / 8) a sr d g"
    unfolding synthesize_signal_def s ..
  show "envelope_std w d = d / 8" using w by (simp add: envelope_std_def)
next
  assume "0 < w"
  then show "envelope_std w d = w" by (simp add: envelope_std_def)
next
  show "(\<exists>e. synthesize_signal h f w a sr d g = Inl e) \<longleftrightarrow>
        (\<bar>sr\<bar> \<ge> of_int float_limit \<or> sr = 0 \<or> \<bar>d\<bar> \<ge> of_int float_limit
         \<or> arange_raises h (axis_points h sr d) \<noteq> None)"
    unfolding synthesize_signal_Inl by auto
next
  fix ts ys g' i
  assume "synthesize_signal h f w a sr d g = Inr ((ts, ys), g')" and "i < length ts"
  with synthesize_signal_InrD(7)[of h f w a sr d g ts ys g']
  show "ys ! i = a * sin (2 * pi * f * (ts ! i))
                      * exp (- 0.5 * ((ts ! i - d / 2) / envelope_std w d)\<^sup>2)
                    + 0.05 * a * g i"
    by blast
qed

text \<open>
  Width \<open>0\<close> at sampling rate \<open>4\<close> and duration \<open>1\<close>: the call returns what the call with
  width \<open>1/8\<close> returns.
\<close>

theorem width_fallback_witness:
  "(\<exists>r. synthesize_signal scenario_host 1 0 2 4 1 real = Inr r
        \<and> synthesize_signal scenario_host 1 (1 / 8) 2 4 1 real = Inr r)
   \<and> envelope_std 0 1 = 1 / 8 \<and> envelope_std 3 1 = 3"
proof -
  note t0 = width_fallback[where h=scenario_host and f=1 and w=0 and a=2 and sr=4 and d=1
      and g=real]
  note t3 = width_fallback[where h=scenario_host and f=1 and w=3 and a=2 and sr=4 and d=1
      and g=real]
  have p: "axis_points scenario_host 4 1 = 4"
    by (simp add: axis_points_def fquot_def scenario_host_simps)
  have ok: "arange_raises scenario_host (axis_points scenario_host 4 1) = None"
    unfolding p by (simp add: scenario_host_simps)
  from t0 have eq: "synthesize_signal scenario_host 1 0 2 4 1 real
                     = synthesize_signal scenario_host 1 (1 / 8) 2 4 1 real"
    and s0: "envelope_std 0 1 = 1 / 8"
    by simp_all
  from t0 have "(\<exists>e. synthesize_signal scenario_host 1 0 2 4 1 real = Inl e) \<longleftrightarrow>
        (\<bar>4::real\<bar> \<ge> of_int float_limit \<or> (4::real) = 0 \<or> \<bar>1::real\<bar> \<ge> of_int float_limit
         \<or> arange_raises scenario_host (axis_points scenario_host 4 1) \<noteq> None)"
    by (elim conjE)
  with in_float_range(1,2) ok have "\<not> (\<exists>e. synthesize_signal scenario_host 1 0 2 4 1 real = Inl e)"
    by simp
  then obtain r where r: "synthesize_signal scenario_host 1 0 2 4 1 real = Inr r"
    by (cases "synthesize_signal scenario_host 1 0 2 4 1 real") auto
  from t3 have s3: "envelope_std 3 1 = 3" by simp
  from r eq s0 s3 show ?thesis by simp
qed

lemma synthesize_signal_length:
  assumes "synthesize_signal h f w a sr d g = Inr ((t, ys), g')"
  shows "length t = nat (axis_points h sr d)" and "length ys = nat (axis_points h sr d)"
proof -
  from synthesize_signal_InrD(5,6)[OF assms]
  show "length t = nat (axis_points h sr d)" and "length ys = nat (axis_points h sr d)"
    by simp_all
qed

section \<open>Properties of the key-value parser and the loader\<close>

lemma split1_from_eq:
  "split1_from sep acc s =
     (if sep \<in> set s
      then [rev acc @ takeWhile (\<lambda>c. c \<noteq> sep) s, tl (dropWhile (\<lambda>c. c \<noteq> sep) s)]
      else [rev acc @ s])"
  by (induction s arbitrary: acc) auto

lemma split1_colon:
  "colon \<in> set line \<Longrightarrow>
   split1 colon line =
     [takeWhile (\<lambda>c. c \<noteq> colon) line, tl (dropWhile (\<lambda>c. c \<noteq> colon) line)]"
  by (simp add: split1_def split1_from_eq)

text \<open>The two parts are the text before and after the first colon of the line.\<close>

lemma first_colon:
  assumes "colon \<in> set line"
  shows "line = takeWhile (\<lambda>c. c \<noteq> colon) line @ colon # tl (dropWhile (\<lambda>c. c \<noteq> colon) line)"
    and "colon \<notin> set (takeWhile (\<lambda>c. c \<noteq> colon) line)"
proof -
  from assms have ne: "dropWhile (\<lambda>c. c \<noteq> colon) line \<noteq> []" by simp
  then have "hd (dropWhile (\<lambda>c. c \<noteq> colon) line) = colon"
    using hd_dropWhile[of "\<lambda>c. c \<noteq> colon" line] by simp
  with ne have "dropWhile (\<lambda>c. c \<noteq> colon) line = colon # tl (dropWhile (\<lambda>c. c \<noteq> colon) line)"
    by (cases "dropWhile (\<lambda>c. c \<noteq> colon) line") auto
  then show "line = takeWhile (\<lambda>c. c \<noteq> colon) line @ colon # tl (dropWhile (\<lambda>c. c \<noteq> colon) line)"
    using takeWhile_dropWhile_id[of "\<lambda>c. c \<noteq> colon" line] by simp
  show "colon \<notin> set (takeWhile (\<lambda>c. c \<noteq> colon) line)"
    by (auto dest: set_takeWhileD)
qed

lemma parse_lines_skip:
  "colon \<notin> set line \<Longrightarrow> parse_lines h (line # rest) meta = parse_lines h rest meta"
  by simp

lemma parse_lines_entry:
  "colon \<in> set line \<Longrightarrow>
   parse_lines h (line # rest) meta =
     parse_lines h rest (meta(entry_key line \<mapsto> entry_value h line))"
  by (simp add: split1_colon entry_key_def entry_value_def Let_def split: option.splits)

text \<open>
  The dict after the loop: a key holds the value of the last line that has a colon and
  that key, and what it held before when there is no such line.
\<close>

lemma parse_lines_eq:
  "parse_lines h ls meta =
     Inr (\<lambda>key. case filter (\<lambda>l. colon \<in> set l \<and> entry_key l = key) ls of
                   [] \<Rightarrow> meta key
                 | xs \<Rightarrow> Some (entry_value h (last xs)))"
proof (induction ls arbitrary: meta)
  case Nil
  show ?case by simp
next
  case (Cons line rest)
  show ?case
  proof (cases "colon \<in> set line")
    case False
    then show ?thesis using Cons.IH[of meta] by simp
  next
    case True
    have "parse_lines h (line # rest) meta =
            parse_lines h rest (meta(entry_key line \<mapsto> entry_value h line))"
      using True by (rule parse_lines_entry)
    also have "\<dots> = Inr (\<lambda>key. case filter (\<lambda>l. colon \<in> set l \<and> entry_key l = key) rest of
                   [] \<Rightarrow> (meta(entry_key line \<mapsto> entry_value h line)) key
                 | xs \<Rightarrow> Some (entry_value h (last xs)))"
      by (rule Cons.IH)
    also have "\<dots> = Inr (\<lambda>key. case filter (\<lambda>l. colon \<in> set l \<and> entry_key l = key) (line # rest) of
                   [] \<Rightarrow> meta key
                 | xs \<Rightarrow> Some (entry_value h (last xs)))"
      using True by (auto simp: fun_eq_iff split: list.splits)
    finally show ?thesis .
  qed
qed

lemma parse_key_value_am_eq:
  "files path = Some contents \<Longrightarrow>
   parse_key_value_am h files path =
     Inr (\<lambda>key. case filter (\<lambda>l. colon \<in> set l \<and> entry_key l = key) (readlines contents) of
                   [] \<Rightarrow> None
                 | xs \<Rightarrow> Some (entry_value h (last xs)))"
  by (simp add: parse_key_value_am_def parse_lines_eq)

lemma readlines_concat: "concat (readlines s) = s"
  by (induction s) (auto split: list.splits)

lemma readlines_nonempty: "l \<in> set (readlines s) \<Longrightarrow> l \<noteq> []"
  by (induction s arbitrary: l) (auto split: list.splits if_splits)

text \<open>A line of \<open>readlines\<close> has no newline but at its end.\<close>

lemma readlines_newline: "l \<in> set (readlines s) \<Longrightarrow> newline \<notin> set (butlast l)"
proof (induction s arbitrary: l)
  case Nil
  then show ?case by simp
next
  case (Cons c cs)
  show ?case
  proof (cases "c = newline")
    case True
    with Cons show ?thesis by auto
  next
    case False
    show ?thesis
    proof (cases "readlines cs")
      case Nil
      with False Cons.prems show ?thesis by simp
    next
      case (Cons l' ls)
      then have l': "l' \<in> set (readlines cs)" and ne: "l' \<noteq> []"
        using readlines_nonempty[of l' cs] by simp_all
      from Cons False Cons.prems have "l = c # l' \<or> l \<in> set ls" by simp
      then show ?thesis
      proof
        assume "l = c # l'"
        then show ?thesis using False ne Cons.IH[OF l'] by simp
      next
        assume "l \<in> set ls"
        then have "l \<in> set (readlines cs)" using Cons by simp
        then show ?thesis by (rule Cons.IH)
      qed
    qed
  qed
qed

subsection \<open>C6: what the parser returns\<close>

text \<open>
  Claim C6. For every text that can be read, the parser returns a mapping, and:
  a key is in the mapping exactly when some line with a colon has it as its key, and its
  value is then the value of the last such line (so lines without a colon contribute
  nothing, and of two lines with the same trimmed key the later one wins); the key and
  the value of a line with a colon come from splitting the line at its first colon
  (\<open>line = k @ colon # v\<close> with no colon in \<open>k\<close>): the key is \<open>k\<close> trimmed, the value is
  \<open>v\<close> trimmed, read as a literal when \<open>literal_eval\<close> accepts it and kept as the trimmed
  string otherwise.
\<close>

theorem parse_key_value_am_mapping:
  assumes "files path = Some contents"
  shows "\<exists>meta. parse_key_value_am h files path = Inr meta
           \<and> (\<forall>key. meta key =
                 (case filter (\<lambda>l. colon \<in> set l \<and> entry_key l = key) (readlines contents) of
                    [] \<Rightarrow> None
                  | xs \<Rightarrow> Some (entry_value h (last xs))))
           \<and> (\<forall>l \<in> set (readlines contents). colon \<in> set l \<longrightarrow>
                 (\<exists>k v. l = k @ colon # v \<and> colon \<notin> set k \<and> entry_key l = strip k
                    \<and> entry_value h l =
                        (case literal_eval h (strip v) of Some x \<Rightarrow> x | None \<Rightarrow> PStr (strip v))))"
proof -
  let ?meta = "\<lambda>key. case filter (\<lambda>l. colon \<in> set l \<and> entry_key l = key) (readlines contents) of
                    [] \<Rightarrow> None
                  | xs \<Rightarrow> Some (entry_value h (last xs))"
  have r: "parse_key_value_am h files path = Inr ?meta"
    using parse_key_value_am_eq[where files="files" and path="path" and contents="contents" and h="h"] assms
    by blast
  have s: "\<exists>k v. l = k @ colon # v \<and> colon \<notin> set k \<and> entry_key l = strip k
                    \<and> entry_value h l =
                        (case literal_eval h (strip v) of Some x \<Rightarrow> x | None \<Rightarrow> PStr (strip v))"
    if "colon \<in> set l" for l
  proof (intro exI conjI)
    show "l = takeWhile (\<lambda>c. c \<noteq> colon) l @ colon # tl (dropWhile (\<lambda>c. c \<noteq> colon) l)"
      using that by (rule first_colon(1))
    show "colon \<notin> set (takeWhile (\<lambda>c. c \<noteq> colon) l)"
      using that by (rule first_colon(2))
    show "entry_key l = strip (takeWhile (\<lambda>c. c \<noteq> colon) l)"
      by (simp add: entry_key_def)
    show "entry_value h l =
            (case literal_eval h (strip (tl (dropWhile (\<lambda>c. c \<noteq> colon) l))) of
               Some x \<Rightarrow> x
             | None \<Rightarrow> PStr (strip (tl (dropWhile (\<lambda>c. c \<noteq> colon) l))))"
      by (simp add: entry_value_def Let_def)
  qed
  from r s show ?thesis by blast
qed

text \<open>
  The text \<open>k: 1\<close>, \<open>junk\<close>, \<open>k : two\<close> (three lines), with a \<open>literal_eval\<close> that accepts
  \<open>1\<close> only: the key \<open>k\<close> holds the string \<open>two\<close> of the last line, and \<open>junk\<close> is no key.
\<close>

theorem parse_key_value_am_mapping_witness:
  "\<exists>meta. parse_key_value_am
             \<lparr>literal_eval = (\<lambda>s. if s = ''1'' then Some (PInt 1) else None),
              ndjson_load = (\<lambda>s. None), float_of_str = (\<lambda>s. None), int_of_str = (\<lambda>s. None),
              repr_of = (\<lambda>v. None), json_dumps = (\<lambda>r. []),
              fdiv = (\<lambda>x y. x / y), arange_raises = (\<lambda>n. None),
              arange_overflow = OverflowError, max_str_digits = None\<rparr>
             [''f.am'' \<mapsto> ''k: 1'' @ [newline] @ ''junk'' @ [newline] @ ''k : two'' @ [newline]]
             ''f.am'' = Inr meta
      \<and> meta ''k'' = Some (PStr ''two'') \<and> meta ''junk'' = None"
proof -
  let ?h = "\<lparr>literal_eval = (\<lambda>s. if s = ''1'' then Some (PInt 1) else None),
              ndjson_load = (\<lambda>s. None), float_of_str = (\<lambda>s. None), int_of_str = (\<lambda>s. None),
              repr_of = (\<lambda>v. None), json_dumps = (\<lambda>r. []),
              fdiv = (\<lambda>x y. x / y), arange_raises = (\<lambda>n. None),
              arange_overflow = OverflowError, max_str_digits = None\<rparr>"
  let ?text = "''k: 1'' @ [newline] @ ''junk'' @ [newline] @ ''k : two'' @ [newline]"
  let ?files = "[''f.am'' \<mapsto> ?text]"
  have f: "?files ''f.am'' = Some ?text" by simp
  have ls: "readlines ?text = [''k: 1'' @ [newline], ''junk'' @ [newline], ''k : two'' @ [newline]]"
    by (simp add: newline_def)
  from parse_key_value_am_mapping[where files="?files" and path="''f.am''" and contents="?text" and h="?h"] f
  obtain meta where
    r: "parse_key_value_am ?h ?files ''f.am'' = Inr meta"
    and m: "\<forall>key. meta key =
                 (case filter (\<lambda>l. colon \<in> set l \<and> entry_key l = key) (readlines ?text) of
                    [] \<Rightarrow> None
                  | xs \<Rightarrow> Some (entry_value ?h (last xs)))"
    by blast
  have "meta ''k'' = Some (PStr ''two'')"
    using m[rule_format, of "''k''"] unfolding ls
    by (simp add: entry_key_def entry_value_def strip_def isspace_def colon_def newline_def)
  moreover have "meta ''junk'' = None"
    using m[rule_format, of "''junk''"] unfolding ls
    by (simp add: entry_key_def entry_value_def strip_def isspace_def colon_def newline_def)
  ultimately show ?thesis using r by blast
qed

subsection \<open>C9: the parser depends on the text only\<close>

text \<open>
  Claim C9. Two runs of the parser on files with the same text, whatever the paths and
  whatever else the file systems hold, return, and return the same mapping.
\<close>

theorem parse_key_value_am_pure:
  assumes "files1 path1 = Some contents" and "files2 path2 = Some contents"
  shows "\<exists>meta. parse_key_value_am h files1 path1 = Inr meta
               \<and> parse_key_value_am h files2 path2 = Inr meta"
  using parse_key_value_am_eq[where files="files1" and path="path1" and contents="contents" and h="h"]
    parse_key_value_am_eq[where files="files2" and path="path2" and contents="contents" and h="h"] assms
  by simp

theorem parse_key_value_am_pure_witness:
  "\<exists>meta. parse_key_value_am
             \<lparr>literal_eval = (\<lambda>s. None), ndjson_load = (\<lambda>s. None), float_of_str = (\<lambda>s. None),
              int_of_str = (\<lambda>s. None), repr_of = (\<lambda>v. None), json_dumps = (\<lambda>r. []),
              fdiv = (\<lambda>x y. x / y), arange_raises = (\<lambda>n. None),
              arange_overflow = OverflowError, max_str_digits = None\<rparr>
             [''a.am'' \<mapsto> ''Duration: 2''] ''a.am'' = Inr meta
      \<and> parse_key_value_am
             \<lparr>literal_eval = (\<lambda>s. None), ndjson_load = (\<lambda>s. None), float_of_str = (\<lambda>s. None),
              int_of_str = (\<lambda>s. None), repr_of = (\<lambda>v. None), json_dumps = (\<lambda>r. []),
              fdiv = (\<lambda>x y. x / y), arange_raises = (\<lambda>n. None),
              arange_overflow = OverflowError, max_str_digits = None\<rparr>
             [''b.am'' \<mapsto> ''Duration: 2'', ''c.am'' \<mapsto> ''x''] ''b.am'' = Inr meta"
proof -
  have 1: "[''a.am'' \<mapsto> ''Duration: 2''] ''a.am'' = Some ''Duration: 2''" by simp
  have 2: "[''b.am'' \<mapsto> ''Duration: 2'', ''c.am'' \<mapsto> ''x''] ''b.am'' = Some ''Duration: 2''" by simp
  show ?thesis
    using parse_key_value_am_pure[where ?files1.0="[''a.am'' \<mapsto> ''Duration: 2'']"
      and ?path1.0="''a.am''" and contents="''Duration: 2''"
      and ?files2.0="[''b.am'' \<mapsto> ''Duration: 2'', ''c.am'' \<mapsto> ''x'']" and ?path2.0="''b.am''"] 1 2
    by blast
qed

section \<open>Properties of the main program\<close>

lemma bind_result_Inl [simp]: "bind_result (Inl e) k = Inl e"
  by (simp add: bind_result_def)

lemma bind_result_Inr [simp]: "bind_result (Inr x) k = k x"
  by (simp add: bind_result_def)

lemma bind_result_eq_Inr:
  "bind_result m k = Inr y \<longleftrightarrow> (\<exists>x. m = Inr x \<and> k x = Inr y)"
  by (cases m) simp_all

subsection \<open>Equality and \<open>index\<close>\<close>

lemma list_all2_refl_on: "(\<And>x. x \<in> set xs \<Longrightarrow> R x x) \<Longrightarrow> list_all2 R xs xs"
  by (induction xs) auto

lemma py_eq_refl: "py_eq v v"
proof (induction v)
  case (PList xs)
  then show ?case by (simp add: list_all2_refl_on)
next
  case (PTuple xs)
  then show ?case by (simp add: list_all2_refl_on)
next
  case (PDict kvs)
  have "list_ex (\<lambda>kv'. py_eq (fst kv) (fst kv') \<and> py_eq (snd kv) (snd kv')) kvs"
    if "kv \<in> set kvs" for kv
  proof -
    have "py_eq (fst kv) (fst kv)" "py_eq (snd kv) (snd kv)"
      using PDict that by (cases kv; fastforce)+
    with that show ?thesis unfolding list_ex_iff by blast
  qed
  then show ?case by (simp add: list_all_iff)
qed simp_all

lemma list_index_member:
  "x \<in> set xs \<Longrightarrow> \<exists>i. list_index xs x = Some i \<and> i < length xs"
  by (induction xs) (auto simp: py_eq_refl)


subsection \<open>Digits\<close>



lemma show_nat_length_mono: "n \<le> m \<Longrightarrow> length (show_nat n) \<le> length (show_nat m)"
proof (induction n arbitrary: m rule: show_nat.induct)
  case (1 n)
  show ?case
  proof (cases "n < 10")
    case True
    then have "length (show_nat n) = 1" by (subst show_nat.simps) simp
    moreover have "1 \<le> length (show_nat m)" by (subst show_nat.simps) simp
    ultimately show ?thesis by simp
  next
    case False
    with "1.prems" have m: "\<not> m < 10" by simp
    from "1.prems" have "n div 10 \<le> m div 10" by (rule div_le_mono)
    from "1.IH"[OF False this]
    have "length (show_nat (n div 10)) \<le> length (show_nat (m div 10))" .
    moreover have "length (show_nat n) = length (show_nat (n div 10)) + 1"
      using False by (subst show_nat.simps) simp
    moreover have "length (show_nat m) = length (show_nat (m div 10)) + 1"
      using m by (subst show_nat.simps) simp
    ultimately show ?thesis by simp
  qed
qed

lemma printable_mono: "printable h i \<Longrightarrow> \<bar>j\<bar> \<le> \<bar>i\<bar> \<Longrightarrow> printable h j"
proof -
  assume p: "printable h i" and le: "\<bar>j\<bar> \<le> \<bar>i\<bar>"
  from le have "nat \<bar>j\<bar> \<le> nat \<bar>i\<bar>" by simp
  from show_nat_length_mono[OF this] p show ?thesis
    by (auto simp: printable_def split: option.splits)
qed

lemma str_of_int_printable: "printable h i \<Longrightarrow> str_of_int h i = Inr (show_int i)"
  by (auto simp: printable_def str_of_int_def split: option.splits)


lemma show_int_1: "show_int 1 = ''1''"
  by code_simp



lemma show_nat_small: "length (show_nat 1) = 1" "length (show_nat 2) = 1" "length (show_nat 100) = 3"
  by code_simp+

lemma scenario_printable:
  "printable scenario_host 1" "printable scenario_host 2" "printable scenario_host 100"
proof -
  have m: "max_str_digits scenario_host = Some 4300" by (simp add: scenario_host_def)
  have n: "nat \<bar>1::int\<bar> = 1" "nat \<bar>2::int\<bar> = 2" "nat \<bar>100::int\<bar> = 100" by simp_all
  show "printable scenario_host 1"
    unfolding printable_def m n by (simp add: show_nat_small del: One_nat_def)
  show "printable scenario_host 2"
    unfolding printable_def m n by (simp add: show_nat_small del: One_nat_def)
  show "printable scenario_host 100"
    unfolding printable_def m n by (simp add: show_nat_small del: One_nat_def)
qed

lemma float_limit_int: "\<bar>i\<bar> < float_limit \<Longrightarrow> \<not> \<bar>real_of_int i\<bar> \<ge> of_int float_limit"
proof -
  assume "\<bar>i\<bar> < float_limit"
  then have "real_of_int \<bar>i\<bar> < of_int float_limit" by (simp only: of_int_less_iff)
  then show ?thesis by simp
qed

subsection \<open>One signature, and the loop\<close>

lemma make_row_Inr:
  assumes "make_row h sig_meta sigs sr duration sig g = Inr (row, g')"
  shows "resolve_label h sig_meta sigs sig = Inr (label row)"
    and "sampling_rate row = sr"
    and "\<exists>d. number_of duration = Inr d
           \<and> length (time_series row) = nat (axis_points h (of_int sr) d)"
proof -
  from assms obtain lab freq d width amplitude t ts where
    l: "resolve_label h sig_meta sigs sig = Inr lab"
    and d: "number_of duration = Inr d"
    and s: "synthesize_signal h freq width amplitude (of_int sr) d g = Inr ((t, ts), g')"
    and r: "row = \<lparr>label = lab, sampling_rate = sr, time_series = ts\<rparr>"
    unfolding make_row_def bind_result_eq_Inr by (auto split: prod.splits)
  show "resolve_label h sig_meta sigs sig = Inr (label row)" using l r by simp
  show "sampling_rate row = sr" using r by simp
  show "\<exists>d. number_of duration = Inr d
           \<and> length (time_series row) = nat (axis_points h (of_int sr) d)"
    using d r synthesize_signal_length(2)[OF s] by simp
qed

lemma number_field_float:
  assumes "number_field kvs key"
  shows "\<exists>v x. dict_get (PDict kvs) key (PFloat dflt) = Inr v \<and> py_float h v = Inr x"
  using assms
  by (auto simp: number_field_def dict_get_def float_of_int_def split: option.splits pyval.splits)

lemma generated_label_Inr:
  assumes "sig \<in> set sigs"
    and "py_str h (meta_get sig_meta ''TheoryVariant'' (PStr ''sig'')) = Inr variant"
    and "printable h (int (length sigs))"
  shows "\<exists>i. list_index sigs sig = Some i \<and> i < length sigs
           \<and> generated_label h sig_meta sigs sig
               = Inr (variant @ ''_'' @ show_int (int i + 1))"
proof -
  from list_index_member[OF assms(1)] obtain i where
    i: "list_index sigs sig = Some i" "i < length sigs" by blast
  then have "\<bar>int i + 1\<bar> \<le> \<bar>int (length sigs)\<bar>" by simp
  from printable_mono[OF assms(3) this] have "str_of_int h (int i + 1) = Inr (show_int (int i + 1))"
    by (rule str_of_int_printable)
  then have "generated_label h sig_meta sigs sig = Inr (variant @ ''_'' @ show_int (int i + 1))"
    by (simp add: generated_label_def assms(2) i(1))
  with i show ?thesis by (iprover intro: exI conjI)
qed

lemma resolve_label_member:
  assumes "sig = PDict kvs" and "sig \<in> set sigs"
    and "py_str h (meta_get sig_meta ''TheoryVariant'' (PStr ''sig'')) = Inr variant"
    and "printable h (int (length sigs))"
  shows "\<exists>lab. resolve_label h sig_meta sigs sig = Inr lab"
proof -
  from generated_label_Inr[OF assms(2,3,4)] obtain s where
    "generated_label h sig_meta sigs sig = Inr s" by (elim exE conjE)
  then show ?thesis
    using assms(1) by (simp add: resolve_label_def dict_get_def)
qed

lemma valid_duration_num:
  assumes "valid_duration duration"
  shows "\<exists>d. py_div8 duration = Inr (d / 8) \<and> number_of duration = Inr d
           \<and> \<not> \<bar>d\<bar> \<ge> of_int float_limit"
proof (cases duration)
  case (PInt i)
  with assms have r: "\<bar>i\<bar> < float_limit" by simp
  then have "\<not> \<bar>i\<bar> \<ge> 8 * float_limit" using float_limit_large by linarith
  with r float_limit_int[OF r] PInt show ?thesis by (simp add: number_of_def)
next
  case (PFloat x)
  with assms show ?thesis by (simp add: number_of_def)
qed (use assms in simp_all)

lemma make_row_valid:
  assumes "valid_signature sig" and "sig \<in> set sigs"
    and "sr \<noteq> 0" and "\<bar>sr\<bar> < float_limit"
    and "valid_duration duration" and "number_of duration = Inr d"
    and "arange_raises h (axis_points h (of_int sr) d) = None"
    and "py_str h (meta_get sig_meta ''TheoryVariant'' (PStr ''sig'')) = Inr variant"
    and "printable h (int (length sigs))"
  shows "\<exists>row g'. make_row h sig_meta sigs sr duration sig g = Inr (row, g')"
proof -
  from assms(1) obtain kvs where sig: "sig = PDict kvs"
    and nf: "number_field kvs ''frequency''" "number_field kvs ''width''"
      "number_field kvs ''amplitude''"
    by (cases sig) simp_all
  from resolve_label_member[OF sig assms(2,8,9)] obtain lab where
    l: "resolve_label h sig_meta sigs sig = Inr lab" by blast
  from valid_duration_num[OF assms(5)] assms(6) have
    d8: "py_div8 duration = Inr (d / 8)" and dr: "\<not> \<bar>d\<bar> \<ge> of_int float_limit"
    by auto
  from number_field_float[OF nf(1)] obtain fv freq where
    f: "dict_get sig ''frequency'' (PFloat 0) = Inr fv" "py_float h fv = Inr freq"
    unfolding sig by blast
  from number_field_float[OF nf(2)] obtain wv width where
    w: "dict_get sig ''width'' (PFloat (d / 8)) = Inr wv" "py_float h wv = Inr width"
    unfolding sig by blast
  from number_field_float[OF nf(3)] obtain av amplitude where
    a: "dict_get sig ''amplitude'' (PFloat 1) = Inr av" "py_float h av = Inr amplitude"
    unfolding sig by blast
  have nz: "(of_int sr :: real) \<noteq> 0" using assms(3) by simp
  note sr = float_limit_int[OF assms(4)]
  from synthesize_signal_Inr[OF sr nz dr assms(7), of freq width amplitude g] obtain ts ys where
    s: "synthesize_signal h freq width amplitude (of_int sr) d g
          = Inr ((ts, ys), \<lambda>i. g (i + length ts))"
    by blast
  show ?thesis
    unfolding make_row_def by (simp add: l f d8 w a assms(6) s)
qed

lemma rows_loop_Inr:
  assumes "rows_loop h sig_meta sigs sr duration rest out_nd g = Inr (rows, g')"
  shows "length rows = length out_nd + length rest \<and> take (length out_nd) rows = out_nd \<and>
         (\<forall>i<length rest.
            resolve_label h sig_meta sigs (rest ! i) = Inr (label (rows ! (length out_nd + i)))
            \<and> sampling_rate (rows ! (length out_nd + i)) = sr
            \<and> (\<exists>d. number_of duration = Inr d
                  \<and> length (time_series (rows ! (length out_nd + i)))
                      = nat (axis_points h (of_int sr) d)))"
  using assms
proof (induction rest arbitrary: out_nd g)
  case Nil
  then show ?case by simp
next
  case (Cons sig rest)
  from Cons.prems obtain row g1 where
    m: "make_row h sig_meta sigs sr duration sig g = Inr (row, g1)"
    and r: "rows_loop h sig_meta sigs sr duration rest (out_nd @ [row]) g1 = Inr (rows, g')"
    by (auto split: sum.splits)
  from Cons.IH[OF r] have
    len: "length rows = length (out_nd @ [row]) + length rest"
    and tk: "take (length (out_nd @ [row])) rows = out_nd @ [row]"
    and el: "\<forall>i<length rest.
            resolve_label h sig_meta sigs (rest ! i) = Inr (label (rows ! (length (out_nd @ [row]) + i)))
            \<and> sampling_rate (rows ! (length (out_nd @ [row]) + i)) = sr
            \<and> (\<exists>d. number_of duration = Inr d
                  \<and> length (time_series (rows ! (length (out_nd @ [row]) + i)))
                      = nat (axis_points h (of_int sr) d))"
    by blast+
  have tk': "take (length out_nd) rows = out_nd"
  proof -
    have "take (length out_nd) (take (length (out_nd @ [row])) rows) = take (length out_nd) (out_nd @ [row])"
      using tk by simp
    then show ?thesis by (simp add: min_def)
  qed
  have here: "rows ! length out_nd = row"
  proof -
    have "rows ! length out_nd = take (length (out_nd @ [row])) rows ! length out_nd"
      by simp
    also have "\<dots> = (out_nd @ [row]) ! length out_nd" using tk by simp
    finally show ?thesis by simp
  qed
  have "resolve_label h sig_meta sigs ((sig # rest) ! i) = Inr (label (rows ! (length out_nd + i)))
        \<and> sampling_rate (rows ! (length out_nd + i)) = sr
        \<and> (\<exists>d. number_of duration = Inr d
              \<and> length (time_series (rows ! (length out_nd + i)))
                  = nat (axis_points h (of_int sr) d))"
    if "i < length (sig # rest)" for i
  proof (cases i)
    case 0
    then show ?thesis using make_row_Inr[OF m] here by simp
  next
    case (Suc k)
    with that have "k < length rest" by simp
    with el Suc show ?thesis by simp
  qed
  with len tk' show ?case by simp
qed

lemma rows_loop_valid:
  assumes "list_all valid_signature rest" and "set rest \<subseteq> set sigs"
    and "sr \<noteq> 0" and "\<bar>sr\<bar> < float_limit"
    and "valid_duration duration" and "number_of duration = Inr d"
    and "arange_raises h (axis_points h (of_int sr) d) = None"
    and "py_str h (meta_get sig_meta ''TheoryVariant'' (PStr ''sig'')) = Inr variant"
    and "printable h (int (length sigs))"
  shows "\<exists>rows g'. rows_loop h sig_meta sigs sr duration rest out_nd g = Inr (rows, g')"
  using assms(1,2)
proof (induction rest arbitrary: out_nd g)
  case Nil
  show ?case by simp
next
  case (Cons sig rest)
  then have v: "valid_signature sig" and m: "sig \<in> set sigs" by simp_all
  from make_row_valid[OF v m assms(3-9), of g] obtain row g1 where
    r: "make_row h sig_meta sigs sr duration sig g = Inr (row, g1)" by blast
  from Cons have "list_all valid_signature rest" "set rest \<subseteq> set sigs" by simp_all
  from Cons.IH[OF this, of "out_nd @ [row]" g1] show ?case by (simp add: r)
qed

subsection \<open>The run as a whole\<close>







subsection \<open>C4: one record per signature\<close>




lemma scenario_points: "axis_points scenario_host (of_int 100) 1 = 100"
  by (simp add: axis_points_def fquot_def scenario_host_simps)


subsection \<open>C5: the generated label of a signature without a label\<close>

text \<open>
  Where no earlier signature equals the \<open>i\<close>-th one, \<open>index\<close> finds the \<open>i\<close>-th position.
\<close>

lemma list_index_position:
  "i < length xs \<Longrightarrow> \<forall>j<i. \<not> py_eq (xs ! j) (xs ! i) \<Longrightarrow> list_index xs (xs ! i) = Some i"
proof (induction xs arbitrary: i)
  case Nil
  then show ?case by simp
next
  case (Cons y ys)
  show ?case
  proof (cases i)
    case 0
    then show ?thesis by (simp add: py_eq_refl)
  next
    case (Suc k)
    with Cons.prems have k: "k < length ys" by simp
    from Cons.prems(2) Suc have ny: "\<not> py_eq y (ys ! k)" by auto
    have "\<forall>j<k. \<not> py_eq (ys ! j) (ys ! k)"
    proof (intro allI impI)
      fix j assume "j < k"
      then have "Suc j < i" using Suc by simp
      with Cons.prems(2) have "\<not> py_eq ((y # ys) ! Suc j) ((y # ys) ! i)" by blast
      then show "\<not> py_eq (ys ! j) (ys ! k)" using Suc by simp
    qed
    from Cons.IH[OF k this] ny Suc show ?thesis by simp
  qed
qed

text \<open>
  Claim C5 at a failing input. Two signatures that are equal, \<open>{"frequency": 10}\<close> twice,
  without a label and without \<open>TheoryVariant\<close> in the metadata: \<open>sigs.index(sig)\<close> finds
  the first of them for both, so the second signature, at position 2, is labelled
  \<open>sig_1\<close> and not \<open>sig_2\<close>; the loop writes the label \<open>sig_1\<close> twice.
\<close>

theorem duplicate_signature_label:
  "resolve_label scenario_host Map.empty
     [PDict [(PStr ''frequency'', PInt 10)], PDict [(PStr ''frequency'', PInt 10)]]
     ([PDict [(PStr ''frequency'', PInt 10)], PDict [(PStr ''frequency'', PInt 10)]] ! 1)
     = Inr (PStr ''sig_1'')
   \<and> (\<exists>rows g'.
        rows_loop scenario_host Map.empty
          [PDict [(PStr ''frequency'', PInt 10)], PDict [(PStr ''frequency'', PInt 10)]]
          100 (PFloat 1)
          [PDict [(PStr ''frequency'', PInt 10)], PDict [(PStr ''frequency'', PInt 10)]]
          [] (\<lambda>i. 0) = Inr (rows, g')
        \<and> map label rows = [PStr ''sig_1'', PStr ''sig_1''])"
proof -
  let ?sig = "PDict [(PStr ''frequency'', PInt 10)]"
  let ?sigs = "[?sig, ?sig]"
  have one: "str_of_int scenario_host 1 = Inr ''1''"
    using str_of_int_printable[OF scenario_printable(1)] by (simp add: show_int_1)
  have r: "resolve_label scenario_host Map.empty ?sigs ?sig = Inr (PStr ''sig_1'')"
    by (simp add: resolve_label_def dict_get_def generated_label_def meta_get_def one)
  have ten: "(10 :: int) < float_limit" using float_limit_large by simp
  have v: "list_all valid_signature ?sigs" using ten by (simp add: number_field_def)
  have nz: "(100::int) \<noteq> 0" by simp
  have rg: "\<bar>100 :: int\<bar> < float_limit" using float_limit_large by simp
  have vd: "valid_duration (PFloat 1)" using in_float_range(1) by simp
  have d: "number_of (PFloat 1) = Inr 1" by (simp add: number_of_def)
  have ok: "arange_raises scenario_host (axis_points scenario_host (of_int 100) 1) = None"
    unfolding scenario_points by (simp add: scenario_host_simps)
  have va: "py_str scenario_host (meta_get Map.empty ''TheoryVariant'' (PStr ''sig'')) = Inr ''sig''"
    by (simp add: meta_get_def)
  have pr: "printable scenario_host (int (length ?sigs))"
    using scenario_printable(2) by simp
  from rows_loop_valid[OF v subset_refl nz rg vd d ok va pr, of "[]" "\<lambda>i. 0"]
  obtain rows g' where
    rl: "rows_loop scenario_host Map.empty ?sigs 100 (PFloat 1) ?sigs [] (\<lambda>i. 0) = Inr (rows, g')"
    by blast
  from rows_loop_Inr[OF rl] have len: "length rows = 2"
    and el: "\<forall>i<2. resolve_label scenario_host Map.empty ?sigs (?sigs ! i) = Inr (label (rows ! i))"
    by simp_all
  from el[rule_format, of 0] r have l0: "label (rows ! 0) = PStr ''sig_1''" by simp
  from el[rule_format, of 1] r have l1: "label (rows ! 1) = PStr ''sig_1''" by simp
  have "map label rows = [PStr ''sig_1'', PStr ''sig_1'']"
  proof (rule nth_equalityI)
    show "length (map label rows) = length [PStr ''sig_1'', PStr ''sig_1'']"
      using len by simp
  next
    fix i assume "i < length (map label rows)"
    then have "i = 0 \<or> i = 1" using len by auto
    then show "map label rows ! i = [PStr ''sig_1'', PStr ''sig_1''] ! i"
      using l0 l1 len by auto
  qed
  with rl have "\<exists>rows g'.
        rows_loop scenario_host Map.empty ?sigs 100 (PFloat 1) ?sigs [] (\<lambda>i. 0) = Inr (rows, g')
        \<and> map label rows = [PStr ''sig_1'', PStr ''sig_1'']"
    by (intro exI conjI)
  moreover have "resolve_label scenario_host Map.empty ?sigs (?sigs ! 1) = Inr (PStr ''sig_1'')"
    using r by simp
  ultimately show ?thesis by (rule conjI[rotated])
qed

subsection \<open>C10: a falsy label\<close>



section \<open>Errors of the loader, leniency of the parser, and the summary\<close>

lemma split_at_first:
  "sep \<notin> set k \<Longrightarrow>
   takeWhile (\<lambda>c. c \<noteq> sep) (k @ sep # v) = k \<and> tl (dropWhile (\<lambda>c. c \<noteq> sep) (k @ sep # v)) = v"
  by (induction k) auto

lemma parse_lines_raw:
  assumes "colon \<notin> set k" and "literal_eval h (strip v) = None"
  shows "parse_lines h ((k @ colon # v) # rest) meta
           = parse_lines h rest (meta(strip k \<mapsto> PStr (strip v)))"
proof -
  have c: "colon \<in> set (k @ colon # v)" by simp
  have "entry_key (k @ colon # v) = strip k"
    using split_at_first[OF assms(1), of v] by (simp add: entry_key_def)
  moreover have "entry_value h (k @ colon # v) = PStr (strip v)"
    using split_at_first[OF assms(1), of v] assms(2) by (simp add: entry_value_def)
  ultimately show ?thesis using parse_lines_entry[OF c, of h rest meta] by simp
qed

lemma parse_lines_returns: "\<exists>meta'. parse_lines h ls meta = Inr meta'"
  using parse_lines_eq[of h ls meta] by (intro exI)

lemma parse_key_value_am_returns:
  "files path = Some contents \<Longrightarrow> \<exists>meta. parse_key_value_am h files path = Inr meta"
  using parse_lines_returns[of h "readlines contents" Map.empty]
  by (simp add: parse_key_value_am_def)

lemma main_load_Inl:
  "load_signatures h files (signatures a) (signature_meta a) = Inl e \<Longrightarrow> main h a files g = Inl e"
  by (simp add: main_def)

subsection \<open>C7: strict loader, lenient parser\<close>

text \<open>
  Claim C7. When the signature file cannot be opened the loader returns \<open>OSError\<close>, and
  when its text is not valid NDJSON the loader returns \<open>JSONDecodeError\<close>; whatever error
  the loader returns is the result of \<open>main\<close>, which does not catch it. The key-value
  parser returns a mapping for every file that can be read and for every list of lines:
  a line without a colon is skipped, and a line whose value is no literal stores the
  trimmed text of the value as a string.
\<close>

theorem loader_raises_parser_recovers:
  "(files (signatures a) = None \<longrightarrow>
      load_signatures h files (signatures a) (signature_meta a) = Inl OSError
      \<and> main h a files g = Inl OSError)
   \<and> (\<forall>contents. files (signatures a) = Some contents \<longrightarrow> ndjson_load h contents = None \<longrightarrow>
         load_signatures h files (signatures a) (signature_meta a) = Inl JSONDecodeError
         \<and> main h a files g = Inl JSONDecodeError)
   \<and> (\<forall>e. load_signatures h files (signatures a) (signature_meta a) = Inl e \<longrightarrow>
         main h a files g = Inl e)
   \<and> (\<forall>path contents. files path = Some contents \<longrightarrow>
         (\<exists>meta. parse_key_value_am h files path = Inr meta))
   \<and> (\<forall>ls meta. \<exists>meta'. parse_lines h ls meta = Inr meta')
   \<and> (\<forall>line rest meta. colon \<notin> set line \<longrightarrow>
         parse_lines h (line # rest) meta = parse_lines h rest meta)
   \<and> (\<forall>k v rest meta. colon \<notin> set k \<longrightarrow> literal_eval h (strip v) = None \<longrightarrow>
         parse_lines h ((k @ colon # v) # rest) meta
           = parse_lines h rest (meta(strip k \<mapsto> PStr (strip v))))"
proof (intro conjI allI impI)
  assume n: "files (signatures a) = None"
  then show l: "load_signatures h files (signatures a) (signature_meta a) = Inl OSError"
    by (simp add: load_signatures_def)
  then show "main h a files g = Inl OSError" by (rule main_load_Inl)
next
  fix contents
  assume "files (signatures a) = Some contents" and "ndjson_load h contents = None"
  then show l: "load_signatures h files (signatures a) (signature_meta a) = Inl JSONDecodeError"
    by (simp add: load_signatures_def)
  then show "main h a files g = Inl JSONDecodeError" by (rule main_load_Inl)
next
  fix e
  assume "load_signatures h files (signatures a) (signature_meta a) = Inl e"
  then show "main h a files g = Inl e" by (rule main_load_Inl)
next
  fix path contents
  assume "files path = Some contents"
  then show "\<exists>meta. parse_key_value_am h files path = Inr meta"
    by (rule parse_key_value_am_returns)
next
  fix ls meta
  show "\<exists>meta'. parse_lines h ls meta = Inr meta'" by (rule parse_lines_returns)
next
  fix line rest meta
  assume "colon \<notin> set line"
  then show "parse_lines h (line # rest) meta = parse_lines h rest meta"
    by (rule parse_lines_skip)
next
  fix k v rest meta
  assume "colon \<notin> set k" and "literal_eval h (strip v) = None"
  then show "parse_lines h ((k @ colon # v) # rest) meta
           = parse_lines h rest (meta(strip k \<mapsto> PStr (strip v)))"
    by (rule parse_lines_raw)
qed

text \<open>
  With no file at all the run ends in \<open>OSError\<close>; with the files of the scenario and a
  reader that rejects the signature file it ends in \<open>JSONDecodeError\<close>; and the lines
  \<open>junk\<close> and \<open>k:v\<close>, the second with a value that is no literal, parse to the mapping
  that holds the string \<open>v\<close> at \<open>k\<close>.
\<close>

theorem loader_raises_parser_recovers_witness:
  "main scenario_host scenario_args Map.empty (\<lambda>i. 0) = Inl OSError
   \<and> main (scenario_host\<lparr>ndjson_load := (\<lambda>s. None)\<rparr>) scenario_args scenario_files (\<lambda>i. 0)
       = Inl JSONDecodeError
   \<and> parse_lines scenario_host [''junk'', ''k'' @ colon # ''v''] Map.empty
       = Inr [''k'' \<mapsto> PStr ''v'']"
proof -
  let ?h = "scenario_host\<lparr>ndjson_load := (\<lambda>s. None)\<rparr>"
  have 1: "main scenario_host scenario_args Map.empty (\<lambda>i. 0) = Inl OSError"
    using loader_raises_parser_recovers[where files=Map.empty and a=scenario_args
        and h=scenario_host and g="\<lambda>i. 0"]
    by simp
  have f: "scenario_files (signatures scenario_args) = Some ''s1''"
    by (simp add: scenario_files_def scenario_args_def)
  have n: "ndjson_load ?h ''s1'' = None" by simp
  have 2: "main ?h scenario_args scenario_files (\<lambda>i. 0) = Inl JSONDecodeError"
    using loader_raises_parser_recovers[where files=scenario_files and a=scenario_args
        and h="?h" and g="\<lambda>i. 0"] f n
    by simp
  have c1: "colon \<notin> set ''junk''" by (simp add: colon_def)
  have c2: "colon \<notin> set ''k''" by (simp add: colon_def)
  have sv: "strip ''v'' = ''v''" by (simp add: strip_def isspace_def)
  have sk: "strip ''k'' = ''k''" by (simp add: strip_def isspace_def)
  have le: "literal_eval scenario_host (strip ''v'') = None"
    unfolding sv by (simp add: scenario_host_def)
  note t = loader_raises_parser_recovers[where files=Map.empty and a=scenario_args
        and h=scenario_host and g="\<lambda>i. 0"]
  from t have skip: "\<forall>line rest meta. colon \<notin> set line \<longrightarrow>
         parse_lines scenario_host (line # rest) meta = parse_lines scenario_host rest meta"
    by (elim conjE)
  from t have raw: "\<forall>k v rest meta. colon \<notin> set k \<longrightarrow> literal_eval scenario_host (strip v) = None \<longrightarrow>
         parse_lines scenario_host ((k @ colon # v) # rest) meta
           = parse_lines scenario_host rest (meta(strip k \<mapsto> PStr (strip v)))"
    by (elim conjE)
  have "parse_lines scenario_host [''junk'', ''k'' @ colon # ''v''] Map.empty
          = parse_lines scenario_host [''k'' @ colon # ''v''] Map.empty"
    using skip c1 by (rule_tac mp[OF spec[OF spec[OF spec[OF skip]]]])
  also have "\<dots> = parse_lines scenario_host [] (Map.empty(strip ''k'' \<mapsto> PStr (strip ''v'')))"
    using c2 le by (rule mp[OF mp[OF spec[OF spec[OF spec[OF spec[OF raw]]]]]])
  also have "\<dots> = Inr [''k'' \<mapsto> PStr ''v'']"
    unfolding sv sk by simp
  finally have 3: "parse_lines scenario_host [''junk'', ''k'' @ colon # ''v''] Map.empty
       = Inr [''k'' \<mapsto> PStr ''v'']" .
  from 1 2 3 show ?thesis by (intro conjI)
qed

subsection \<open>C8: the summary file\<close>






end
